theory Spec2Isabelle
  imports Complex_Main "HOL-Library.Sublist"
begin

section \<open>JavaScript values handled by the server\<close>

text \<open>
  The server (\<^verbatim>\<open>src/index.ts\<close>) works on values of TypeScript type \<^verbatim>\<open>any\<close>: what
  \<^verbatim>\<open>res.json()\<close> returns, and \<^verbatim>\<open>undefined\<close>, which optional chaining produces.
  A number is an IEEE double; the code only tests numbers for truthiness, so a finite
  double is represented by its rational value (\<^verbatim>\<open>-0\<close> is \<open>Finite 0\<close>). A string is a list
  of code units; an object is the list of its own properties.
\<close>

datatype number = Finite rat | Infinity | NegInfinity | NaN

datatype json =
    JUndefined
  | JNull
  | JBool bool
  | JNum number
  | JStr string
  | JArr "json list"
  | JObj "(string \<times> json) list"

text \<open>ToBoolean, as applied by \<^verbatim>\<open>&&\<close>, \<^verbatim>\<open>||\<close>, \<^verbatim>\<open>!\<close>, \<^verbatim>\<open>if\<close> and \<^verbatim>\<open>filter\<close>.\<close>

fun truthy :: "json \<Rightarrow> bool" where
  "truthy JUndefined = False"
| "truthy JNull = False"
| "truthy (JBool b) = b"
| "truthy (JNum (Finite q)) = (q \<noteq> 0)"
| "truthy (JNum Infinity) = True"
| "truthy (JNum NegInfinity) = True"
| "truthy (JNum NaN) = False"
| "truthy (JStr s) = (s \<noteq> [])"
| "truthy (JArr xs) = True"
| "truthy (JObj kvs) = True"

fun nullish :: "json \<Rightarrow> bool" where
  "nullish JUndefined = True"
| "nullish JNull = True"
| "nullish v = False"

text \<open>
  \<open>member v k\<close> is the property read \<^verbatim>\<open>v.k\<close> on a value that is neither \<^verbatim>\<open>null\<close> nor
  \<^verbatim>\<open>undefined\<close>, for the property names the source reads as data (\<^verbatim>\<open>x402Version\<close>,
  \<^verbatim>\<open>accepts\<close>, \<^verbatim>\<open>resource\<close>, \<^verbatim>\<open>links\<close>, \<^verbatim>\<open>results\<close>): an object yields its own property,
  and no prototype of a string, number, boolean, array or object defines one of these
  names, so every other read is \<^verbatim>\<open>undefined\<close>.
\<close>

fun member :: "json \<Rightarrow> string \<Rightarrow> json" where
  "member (JObj kvs) k = (case map_of kvs k of Some v \<Rightarrow> v | None \<Rightarrow> JUndefined)"
| "member v k = JUndefined"

datatype error =
    TypeError
  | FetchFailed
  | JsonParseFailed
  | MethodNotFound string

text \<open>\<^verbatim>\<open>v?.k\<close>: short-circuits to \<^verbatim>\<open>undefined\<close> on \<^verbatim>\<open>null\<close> and \<^verbatim>\<open>undefined\<close>.\<close>

definition optMember :: "json \<Rightarrow> string \<Rightarrow> json" where
  "optMember v k = (if nullish v then JUndefined else member v k)"

text \<open>\<^verbatim>\<open>v.k\<close>: throws a TypeError on \<^verbatim>\<open>null\<close> and \<^verbatim>\<open>undefined\<close>.\<close>

definition dotMember :: "json \<Rightarrow> string \<Rightarrow> error + json" where
  "dotMember v k = (if nullish v then Inl TypeError else Inr (member v k))"

text \<open>
  \<^verbatim>\<open>v?.[0]\<close>: the first element of an array, the first code unit of a string, the own
  property \<^verbatim>\<open>"0"\<close> of an object, and \<^verbatim>\<open>undefined\<close> otherwise.
\<close>

fun optIndex0 :: "json \<Rightarrow> json" where
  "optIndex0 (JArr xs) = (case xs of [] \<Rightarrow> JUndefined | x # _ \<Rightarrow> x)"
| "optIndex0 (JStr s) = (case s of [] \<Rightarrow> JUndefined | c # _ \<Rightarrow> JStr [c])"
| "optIndex0 (JObj kvs) = (case map_of kvs ''0'' of Some v \<Rightarrow> v | None \<Rightarrow> JUndefined)"
| "optIndex0 v = JUndefined"

text \<open>
  Whether ToString of a value returns, as a template literal \<^verbatim>\<open>`${v}`\<close> applies it.
  An object is converted by its \<^verbatim>\<open>toString\<close> method: an own property of that name is
  data, never callable, and \<^verbatim>\<open>valueOf\<close> (own or inherited) yields no primitive either,
  so the conversion throws a TypeError exactly when the object has an own property
  \<^verbatim>\<open>toString\<close>. An array joins the conversions of its elements, \<^verbatim>\<open>null\<close> and \<^verbatim>\<open>undefined\<close>
  elements being skipped.
\<close>

fun toStringReturns :: "json \<Rightarrow> bool" where
  "toStringReturns (JObj kvs) = (map_of kvs ''toString'' = None)"
| "toStringReturns (JArr xs) = list_all (\<lambda>x. nullish x \<or> toStringReturns x) xs"
| "toStringReturns v = True"

section \<open>The network\<close>

text \<open>
  Every \<^verbatim>\<open>fetch\<close> of the source goes to one of three endpoints of \<^verbatim>\<open>API_BASE_URL\<close>.
  A request records what the source puts into it: the \<^verbatim>\<open>url\<close> member of the payment
  body (the value, before \<^verbatim>\<open>JSON.stringify\<close>), the URL passed to \<^verbatim>\<open>encodeURIComponent\<close>, the \<^verbatim>\<open>urls\<close> and \<^verbatim>\<open>domain\<close> members of
  the extraction body. A URL is a string of code units below 256, on which
  \<^verbatim>\<open>encodeURIComponent\<close> returns.
\<close>

datatype request =
    is_PostDoPayment: PostDoPayment json
  | is_GetLinks: GetLinks string
  | is_PostExtractText: PostExtractText "json list" string

text \<open>
  A \<^verbatim>\<open>fetch\<close> either rejects or resolves to a response, of which the source reads
  \<^verbatim>\<open>res.ok\<close> and \<^verbatim>\<open>await res.json()\<close>; the body is \<open>None\<close> when \<^verbatim>\<open>res.json()\<close> rejects.
\<close>

datatype reply = NetworkError | Reply bool "json option"

text \<open>
  The backend answers a request knowing all requests made before it. The state of a run
  is the list of requests made so far, oldest first.
\<close>

type_synonym backend = "request list \<Rightarrow> request \<Rightarrow> reply"

type_synonym 'a io = "request list \<Rightarrow> (error + 'a) \<times> request list"

definition fetch :: "backend \<Rightarrow> request \<Rightarrow> request list \<Rightarrow> reply \<times> request list" where
  "fetch be req tr = (be tr req, tr @ [req])"

section \<open>Payment detection and payment\<close>

text \<open>
  \<^verbatim>\<open>const isX402 = (data: any) => data?.x402Version && data?.accepts;\<close>
  The result is the left operand when it is falsy and the right operand otherwise; the
  callers use it as a condition.
\<close>

definition isX402 :: "json \<Rightarrow> json" where
  "isX402 data =
     (if truthy (optMember data ''x402Version'') then optMember data ''accepts''
      else optMember data ''x402Version'')"

text \<open>
  \<^verbatim>\<open>pay\<close>: the log line \<^verbatim>\<open>`[PAY] Paying for: ${url}`\<close> is evaluated before the
  \<^verbatim>\<open>try\<close> block, so a failing string conversion of \<^verbatim>\<open>url\<close> leaves \<^verbatim>\<open>pay\<close> as an
  exception; a rejected \<^verbatim>\<open>fetch\<close> is caught.
\<close>

definition pay :: "backend \<Rightarrow> json \<Rightarrow> bool io" where
  "pay be x402 tr =
     (let url = optMember (optIndex0 (optMember x402 ''accepts'')) ''resource'' in
      if \<not> truthy url then (Inr False, tr)
      else if \<not> toStringReturns url then (Inl TypeError, tr)
      else (case fetch be (PostDoPayment url) tr of
              (NetworkError, tr') \<Rightarrow> (Inr False, tr')
            | (Reply ok body, tr') \<Rightarrow> (Inr ok, tr')))"

text \<open>
  \<^verbatim>\<open>getLinks\<close>: neither the \<^verbatim>\<open>fetch\<close> nor \<^verbatim>\<open>res.json()\<close> is guarded, and \<^verbatim>\<open>res.ok\<close> is not
  read.
\<close>

function getLinks :: "backend \<Rightarrow> string \<Rightarrow> bool \<Rightarrow> json io" where
  "getLinks be url retry tr =
     (case fetch be (GetLinks url) tr of
        (NetworkError, tr1) \<Rightarrow> (Inl FetchFailed, tr1)
      | (Reply ok None, tr1) \<Rightarrow> (Inl JsonParseFailed, tr1)
      | (Reply ok (Some data), tr1) \<Rightarrow>
          if truthy (isX402 data) then
            (if retry then
               (case pay be data tr1 of
                  (Inl e, tr2) \<Rightarrow> (Inl e, tr2)
                | (Inr paid, tr2) \<Rightarrow>
                    if paid then getLinks be url False tr2 else (Inr data, tr2))
             else (Inr data, tr1))
          else (Inr data, tr1))"
  by pat_completeness auto
termination
  by (relation "measure (\<lambda>(be, url, retry, tr). if retry then 1 else 0)") auto

text \<open>\<^verbatim>\<open>for (const x402 of x402Results) { await pay(x402); }\<close>\<close>

fun payEach :: "backend \<Rightarrow> json list \<Rightarrow> unit io" where
  "payEach be [] tr = (Inr (), tr)"
| "payEach be (x402 # rest) tr =
     (case pay be x402 tr of
        (Inl e, tr1) \<Rightarrow> (Inl e, tr1)
      | (Inr paid, tr1) \<Rightarrow> payEach be rest tr1)"

text \<open>
  \<^verbatim>\<open>extractText\<close>: \<^verbatim>\<open>data.results\<close> is a plain property read, which throws when the body
  is \<^verbatim>\<open>null\<close>, and \<^verbatim>\<open>data.results.filter\<close> is a function only when \<^verbatim>\<open>data.results\<close> is
  an array.
\<close>

function extractText :: "backend \<Rightarrow> json list \<Rightarrow> string \<Rightarrow> bool \<Rightarrow> json io" where
  "extractText be urls domain retry tr =
     (case fetch be (PostExtractText urls domain) tr of
        (NetworkError, tr1) \<Rightarrow> (Inl FetchFailed, tr1)
      | (Reply ok None, tr1) \<Rightarrow> (Inl JsonParseFailed, tr1)
      | (Reply ok (Some data), tr1) \<Rightarrow>
          if truthy (isX402 data) then
            (if retry then
               (case pay be data tr1 of
                  (Inl e, tr2) \<Rightarrow> (Inl e, tr2)
                | (Inr paid, tr2) \<Rightarrow>
                    if paid then extractText be urls domain False tr2 else (Inr data, tr2))
             else (Inr data, tr1))
          else
            (case dotMember data ''results'' of
               Inl e \<Rightarrow> (Inl e, tr1)
             | Inr results \<Rightarrow>
                 if truthy results \<and> retry then
                   (case results of
                      JArr items \<Rightarrow>
                        (let x402Results = filter (\<lambda>item. truthy (isX402 item)) items in
                         if length x402Results > 0 then
                           (case payEach be x402Results tr1 of
                              (Inl e, tr2) \<Rightarrow> (Inl e, tr2)
                            | (Inr u, tr2) \<Rightarrow> extractText be urls domain False tr2)
                         else (Inr data, tr1))
                    | _ \<Rightarrow> (Inl TypeError, tr1))
                 else (Inr data, tr1)))"
  by pat_completeness auto
termination
  by (relation "measure (\<lambda>(be, urls, domain, retry, tr). if retry then 1 else 0)") auto

section \<open>The domain filter\<close>

text \<open>
  \<^verbatim>\<open>s.replace(pat, rep)\<close> with a string pattern replaces the first occurrence of
  \<^verbatim>\<open>pat\<close> in \<^verbatim>\<open>s\<close>, wherever it is; the source only passes the replacement \<^verbatim>\<open>""\<close>, in
  which no \<^verbatim>\<open>$\<close> pattern occurs.
\<close>

fun replace :: "string \<Rightarrow> string \<Rightarrow> string \<Rightarrow> string" where
  "replace [] pat rep = (if pat = [] then rep else [])"
| "replace (c # cs) pat rep =
     (if prefix pat (c # cs) then rep @ drop (length pat) (c # cs)
      else c # replace cs pat rep)"

text \<open>\<^verbatim>\<open>s.includes(t)\<close>: \<^verbatim>\<open>t\<close> occurs in \<^verbatim>\<open>s\<close> at some position.\<close>

fun includesStr :: "string \<Rightarrow> string \<Rightarrow> bool" where
  "includesStr [] t = (t = [])"
| "includesStr (c # cs) t = (prefix t (c # cs) \<or> includesStr cs t)"

definition socials :: "string list" where
  "socials = [''github.com'', ''linkedin.com'', ''instagram.com'', ''twitter.com'',
              ''facebook.com'', ''youtube.com'', ''x.com'']"

text \<open>
  The URL parser of the platform is a parameter: \<open>hostname link\<close> is
  \<^verbatim>\<open>new URL(link).hostname\<close>, and \<open>None\<close> when the constructor throws. The \<^verbatim>\<open>try\<close> of the
  callback covers the whole body, so a link that does not parse is filtered out.
\<close>

definition filterUrls :: "('a \<Rightarrow> string option) \<Rightarrow> 'a list \<Rightarrow> string \<Rightarrow> 'a list" where
  "filterUrls hostname links domain =
     filter (\<lambda>link.
       case hostname link of
         None \<Rightarrow> False
       | Some h \<Rightarrow>
           (let host = replace h ''www.'' '''' in
            \<not> list_ex (\<lambda>s. includesStr host s) socials \<and>
            includesStr host (replace domain ''www.'' ''''))) links"

section \<open>The tool handler\<close>

text \<open>
  The arguments of a tool call, with the types the handler casts them to; the dispatcher
  passes arguments that conform to the tool's \<^verbatim>\<open>inputSchema\<close>. The handler returns one
  text item: a fixed string, or \<^verbatim>\<open>JSON.stringify(v, null, 2)\<close> of a value \<^verbatim>\<open>v\<close>.
\<close>

record arguments =
  arg_url :: string
  arg_urls :: "string list"
  arg_domain :: string

datatype toolText = Plain string | Stringify json

definition callTool ::
  "backend \<Rightarrow> (json \<Rightarrow> string option) \<Rightarrow> string \<Rightarrow> arguments \<Rightarrow> toolText io" where
  "callTool be hostname name args tr =
     (if name = ''get_links'' then
        (case getLinks be (arg_url args) True tr of
           (Inl e, tr1) \<Rightarrow> (Inl e, tr1)
         | (Inr result, tr1) \<Rightarrow> (Inr (Stringify result), tr1))
      else if name = ''extract_text'' then
        (let filtered = filterUrls (\<lambda>s. hostname (JStr s)) (arg_urls args) (arg_domain args) in
         if length filtered = 0 then (Inr (Plain ''No URLs matched domain filter''), tr)
         else
           (case extractText be (map JStr filtered) (arg_domain args) True tr of
              (Inl e, tr1) \<Rightarrow> (Inl e, tr1)
            | (Inr result, tr1) \<Rightarrow> (Inr (Stringify result), tr1)))
      else if name = ''scrape_website'' then
        (case hostname (JStr (arg_url args)) of
           None \<Rightarrow> (Inl TypeError, tr)
         | Some h \<Rightarrow>
             (let dom = replace h ''www.'' '''' in
              case getLinks be (arg_url args) True tr of
                (Inl e, tr1) \<Rightarrow> (Inl e, tr1)
              | (Inr links, tr1) \<Rightarrow>
                  if truthy (isX402 links) then
                    (Inr (Stringify (JObj [(''error'', JStr ''Payment failed for links''),
                                           (''x402'', links)])), tr1)
                  else
                    (case dotMember links ''links'' of
                       Inl e \<Rightarrow> (Inl e, tr1)
                     | Inr ls \<Rightarrow>
                         (case (if truthy ls then ls else JArr []) of
                            JArr xs \<Rightarrow>
                              (let filtered = filterUrls hostname xs dom in
                               if length filtered = 0 then
                                 (Inr (Stringify (JObj [(''links'', ls),
                                                        (''filtered'', JArr []),
                                                        (''message'', JStr ''No internal links found'')])),
                                  tr1)
                               else
                                 (case extractText be filtered dom True tr1 of
                                    (Inl e, tr2) \<Rightarrow> (Inl e, tr2)
                                  | (Inr extracted, tr2) \<Rightarrow>
                                      (Inr (Stringify (JObj [(''links'', links),
                                                             (''filtered'', JArr filtered),
                                                             (''extracted'', extracted)])),
                                       tr2)))
                          | _ \<Rightarrow> (Inl TypeError, tr1)))))
      else (Inl (MethodNotFound name), tr))"

section \<open>The domain filter in the words of the specification\<close>

text \<open>
  For comparison with \<open>filterUrls\<close>, the Domain Filter as the specification words it
  (section 4.3 and the glossary): the host is the hostname with a leading \<^verbatim>\<open>www.\<close>
  stripped, a link is excluded when that host contains one of the seven social-media
  hostnames, and included only when it contains the target domain, stripped likewise.
\<close>

definition spec_stripLeadingWww :: "string \<Rightarrow> string" where
  "spec_stripLeadingWww h = (if prefix ''www.'' h then drop 4 h else h)"

definition spec_filterUrls :: "('a \<Rightarrow> string option) \<Rightarrow> 'a list \<Rightarrow> string \<Rightarrow> 'a list" where
  "spec_filterUrls hostname links domain =
     filter (\<lambda>link.
       case hostname link of
         None \<Rightarrow> False
       | Some h \<Rightarrow>
           \<not> list_ex (\<lambda>s. sublist s (spec_stripLeadingWww h))
                [''github.com'', ''linkedin.com'', ''instagram.com'', ''twitter.com'',
                 ''facebook.com'', ''youtube.com'', ''x.com''] \<and>
           sublist (spec_stripLeadingWww domain) (spec_stripLeadingWww h)) links"

section \<open>Strings: occurrence and replacement\<close>

lemma includesStr_sublist: "includesStr s t \<longleftrightarrow> sublist t s"
  by (induction s) (auto simp: sublist_Cons_right)

lemma replace_prefix: "prefix pat s \<Longrightarrow> replace s pat rep = rep @ drop (length pat) s"
  by (cases s) auto

lemma replace_absent: "\<not> sublist pat s \<Longrightarrow> replace s pat rep = s"
  by (induction s) (auto simp: sublist_Cons_right)

lemma prefix_of_append_short:
  assumes "prefix a (xs @ ys)" and "length a \<le> length xs"
  shows "prefix a xs"
  using assms by (metis prefix_length_prefix prefixI)

lemma replace_first_occurrence:
  assumes "\<not> sublist pat (p @ butlast pat)" and "pat \<noteq> []"
  shows "replace (p @ pat @ s) pat rep = p @ rep @ s"
  using assms
proof (induction p)
  case Nil
  then show ?case by (cases pat) auto
next
  case (Cons c p)
  have "\<not> prefix pat (c # p @ pat @ s)"
  proof
    assume "prefix pat (c # p @ pat @ s)"
    moreover have "pat @ s = butlast pat @ ([last pat] @ s)"
      using Cons.prems(2) by (metis append_assoc append_butlast_last_id)
    ultimately have "prefix pat (((c # p) @ butlast pat) @ ([last pat] @ s))"
      by simp
    then have "prefix pat ((c # p) @ butlast pat)"
      by (rule prefix_of_append_short) simp
    then show False
      using Cons.prems(1) by (simp add: sublist_Cons_right)
  qed
  moreover have "\<not> sublist pat (p @ butlast pat)"
    using Cons.prems(1) by (simp add: sublist_Cons_right)
  ultimately show ?case
    using Cons by simp
qed

section \<open>The payment detector\<close>




section \<open>The payment executor\<close>

lemma pay_falsy_resource:
  "\<not> truthy (optMember (optIndex0 (optMember x402 ''accepts'')) ''resource'') \<Longrightarrow>
   pay be x402 tr = (Inr False, tr)"
  by (simp add: pay_def)

lemma pay_requests:
  assumes "truthy (optMember (optIndex0 (optMember x402 ''accepts'')) ''resource'')"
    and "toStringReturns (optMember (optIndex0 (optMember x402 ''accepts'')) ''resource'')"
  shows "pay be x402 tr =
     (Inr (case be tr (PostDoPayment (optMember (optIndex0 (optMember x402 ''accepts'')) ''resource'')) of
             NetworkError \<Rightarrow> False | Reply ok body \<Rightarrow> ok),
      tr @ [PostDoPayment (optMember (optIndex0 (optMember x402 ''accepts'')) ''resource'')])"
  using assms by (simp add: pay_def fetch_def split: reply.splits)

lemma pay_trace:
  "snd (pay be x402 tr) = tr \<or>
   snd (pay be x402 tr) =
     tr @ [PostDoPayment (optMember (optIndex0 (optMember x402 ''accepts'')) ''resource'')]"
  by (simp add: pay_def fetch_def Let_def split: reply.splits)

lemma pay_True:
  assumes "pay be x402 tr = (Inr True, tr')"
  shows "tr' = tr @ [PostDoPayment (optMember (optIndex0 (optMember x402 ''accepts'')) ''resource'')]"
  using assms by (auto simp: pay_def fetch_def Let_def split: reply.splits if_splits)

text \<open>
  C4. The claim says that \<open>pay\<close> never throws. The source builds its first log line from
  \<^verbatim>\<open>url\<close> before entering the \<^verbatim>\<open>try\<close> block; when \<^verbatim>\<open>accepts[0].resource\<close> is an object
  with an own property \<^verbatim>\<open>toString\<close>, as in
  \<^verbatim>\<open>{x402Version: 1, accepts: [{resource: {toString: 1}}]}\<close>, the conversion throws a
  TypeError that nothing catches, and no payment request is made.
\<close>

theorem pay_throws_on_unprintable_resource:
  "pay be (JObj [(''x402Version'', JNum (Finite 1)),
                 (''accepts'', JArr [JObj [(''resource'',
                    JObj [(''toString'', JNum (Finite 1))])]])]) tr
   = (Inl TypeError, tr)"
  by (simp add: pay_def optMember_def)

section \<open>The link fetcher\<close>

declare getLinks.simps [simp del] extractText.simps [simp del]

lemma getLinks_no_retry:
  "getLinks be url False tr =
     (case be tr (GetLinks url) of
        NetworkError \<Rightarrow> (Inl FetchFailed, tr @ [GetLinks url])
      | Reply ok None \<Rightarrow> (Inl JsonParseFailed, tr @ [GetLinks url])
      | Reply ok (Some data) \<Rightarrow> (Inr data, tr @ [GetLinks url]))"
  by (subst getLinks.simps) (simp add: fetch_def split: reply.splits option.splits)

lemma getLinks_no_retry_trace: "snd (getLinks be url False tr) = tr @ [GetLinks url]"
  by (simp add: getLinks_no_retry split: reply.splits option.splits)

lemma getLinks_challenge:
  assumes "be tr (GetLinks url) = Reply ok (Some data)" and "truthy (isX402 data)"
  shows "getLinks be url True tr =
     (case pay be data (tr @ [GetLinks url]) of
        (Inl e, tr2) \<Rightarrow> (Inl e, tr2)
      | (Inr paid, tr2) \<Rightarrow> if paid then getLinks be url False tr2 else (Inr data, tr2))"
  using assms by (subst getLinks.simps) (simp add: fetch_def)

lemma getLinks_plain:
  assumes "be tr (GetLinks url) = Reply ok (Some data)" and "\<not> truthy (isX402 data)"
  shows "getLinks be url retry tr = (Inr data, tr @ [GetLinks url])"
  using assms by (subst getLinks.simps) (simp add: fetch_def)

lemma pay_trace_ex:
  "\<exists>ps. snd (pay be x402 tr) = tr @ ps \<and> list_all is_PostDoPayment ps \<and> length ps \<le> 1"
  using pay_trace [of be x402 tr] by auto

lemma getLinks_trace:
  "\<exists>ps. list_all is_PostDoPayment ps \<and> length ps \<le> 1 \<and>
     (snd (getLinks be url True tr) = tr @ GetLinks url # ps \<or>
      snd (getLinks be url True tr) = tr @ GetLinks url # ps @ [GetLinks url])"
proof (cases "be tr (GetLinks url)")
  case NetworkError
  then show ?thesis
    by (subst (1 2) getLinks.simps) (simp add: fetch_def)
next
  case (Reply ok body)
  show ?thesis
  proof (cases body)
    case None
    with Reply show ?thesis
      by (subst (1 2) getLinks.simps) (simp add: fetch_def)
  next
    case (Some data)
    show ?thesis
    proof (cases "truthy (isX402 data)")
      case False
      with Reply Some show ?thesis
        by (simp add: getLinks_plain)
    next
      case True
      obtain r tr2 where p: "pay be data (tr @ [GetLinks url]) = (r, tr2)"
        by (cases "pay be data (tr @ [GetLinks url])")
      obtain ps where ps: "tr2 = (tr @ [GetLinks url]) @ ps" "list_all is_PostDoPayment ps" "length ps \<le> 1"
        using pay_trace_ex [of be data "tr @ [GetLinks url]"] p by auto
      have "snd (getLinks be url True tr) = tr2 \<or> snd (getLinks be url True tr) = tr2 @ [GetLinks url]"
        using Reply Some True p
        by (cases r) (simp_all add: getLinks_challenge getLinks_no_retry_trace)
      with ps show ?thesis by auto
    qed
  qed
qed

text \<open>
  What \<open>getLinks\<close> does on a challenge body with \<open>retry\<close> true when \<open>pay\<close> returns:
  \<open>pay\<close> is applied once, to that body, in the state reached after the first request.
  If it returns true, exactly one payment request was made and the result is that of one
  call with \<open>retry = False\<close>, which makes one more link request and returns its body
  whatever it is. If it returns false, the challenge is returned unchanged and no request
  follows the payment attempt.
\<close>

lemma getLinks_pays_once_then_replays_once:
  assumes "be tr (GetLinks url) = Reply ok (Some data)" and "truthy (isX402 data)"
  shows
    "getLinks be url True tr =
       (case pay be data (tr @ [GetLinks url]) of
          (Inl e, tr2) \<Rightarrow> (Inl e, tr2)
        | (Inr paid, tr2) \<Rightarrow> if paid then getLinks be url False tr2 else (Inr data, tr2)) \<and>
     (pay be data (tr @ [GetLinks url]) = (Inr True, tr2) \<longrightarrow>
        tr2 = tr @ [GetLinks url,
                PostDoPayment (optMember (optIndex0 (optMember data ''accepts'')) ''resource'')] \<and>
        getLinks be url True tr = getLinks be url False tr2 \<and>
        snd (getLinks be url True tr) = tr2 @ [GetLinks url] \<and>
        (\<forall>ok' data'. be tr2 (GetLinks url) = Reply ok' (Some data') \<longrightarrow>
           getLinks be url True tr = (Inr data', tr2 @ [GetLinks url]))) \<and>
     (pay be data (tr @ [GetLinks url]) = (Inr False, tr2) \<longrightarrow>
        getLinks be url True tr = (Inr data, tr2) \<and>
        (tr2 = tr @ [GetLinks url] \<or>
         tr2 = tr @ [GetLinks url,
                 PostDoPayment (optMember (optIndex0 (optMember data ''accepts'')) ''resource'')]))"
proof (intro conjI impI)
  show unfold: "getLinks be url True tr =
       (case pay be data (tr @ [GetLinks url]) of
          (Inl e, tr2) \<Rightarrow> (Inl e, tr2)
        | (Inr paid, tr2) \<Rightarrow> if paid then getLinks be url False tr2 else (Inr data, tr2))"
    using assms by (rule getLinks_challenge)
  {
    assume paid: "pay be data (tr @ [GetLinks url]) = (Inr True, tr2)"
    then show "tr2 = tr @ [GetLinks url,
                PostDoPayment (optMember (optIndex0 (optMember data ''accepts'')) ''resource'')]"
      using pay_True [OF paid] by simp
    from paid show replay: "getLinks be url True tr = getLinks be url False tr2"
      by (simp add: unfold)
    then show "snd (getLinks be url True tr) = tr2 @ [GetLinks url]"
      by (simp add: getLinks_no_retry_trace)
    from replay show "\<forall>ok' data'. be tr2 (GetLinks url) = Reply ok' (Some data') \<longrightarrow>
           getLinks be url True tr = (Inr data', tr2 @ [GetLinks url])"
      by (simp add: getLinks_no_retry)
  }
  {
    assume unpaid: "pay be data (tr @ [GetLinks url]) = (Inr False, tr2)"
    then show "getLinks be url True tr = (Inr data, tr2)"
      by (simp add: unfold)
    from unpaid show "tr2 = tr @ [GetLinks url] \<or>
         tr2 = tr @ [GetLinks url,
                 PostDoPayment (optMember (optIndex0 (optMember data ''accepts'')) ''resource'')]"
      using pay_trace [of be data "tr @ [GetLinks url]"] by auto
  }
qed

lemma getLinks_pays_once_then_replays_once_example:
  "getLinks
     (\<lambda>tr req. case req of
        GetLinks u \<Rightarrow>
          if tr = [] then Reply False (Some (JObj [(''x402Version'', JNum (Finite 1)),
                              (''accepts'', JArr [JObj [(''resource'', JStr ''b'')]])]))
          else Reply True (Some (JObj [(''links'', JArr [JStr ''a''])]))
      | PostDoPayment r \<Rightarrow> Reply True None
      | PostExtractText us d \<Rightarrow> NetworkError)
     ''u'' True []
   = (Inr (JObj [(''links'', JArr [JStr ''a''])]),
      [GetLinks ''u'', PostDoPayment (JStr ''b''), GetLinks ''u'']) \<and>
   getLinks
     (\<lambda>tr req. case req of
        GetLinks u \<Rightarrow>
          if tr = [] then Reply False (Some (JObj [(''x402Version'', JNum (Finite 1)),
                              (''accepts'', JArr [JObj [(''resource'', JStr ''b'')]])]))
          else Reply True (Some (JObj [(''links'', JArr [JStr ''a''])]))
      | PostDoPayment r \<Rightarrow> Reply False None
      | PostExtractText us d \<Rightarrow> NetworkError)
     ''u'' True []
   = (Inr (JObj [(''x402Version'', JNum (Finite 1)),
                 (''accepts'', JArr [JObj [(''resource'', JStr ''b'')]])]),
      [GetLinks ''u'', PostDoPayment (JStr ''b'')])"
proof -
  let ?ch = "JObj [(''x402Version'', JNum (Finite 1)),
                   (''accepts'', JArr [JObj [(''resource'', JStr ''b'')]])]"
  let ?be = "\<lambda>paid tr req. case req of
        GetLinks u \<Rightarrow>
          if tr = [] then Reply False (Some ?ch)
          else Reply True (Some (JObj [(''links'', JArr [JStr ''a''])]))
      | PostDoPayment r \<Rightarrow> Reply paid None
      | PostExtractText us d \<Rightarrow> NetworkError"
  have ch: "truthy (isX402 ?ch)"
    by (simp add: isX402_def optMember_def)
  have r: "?be paid [] (GetLinks ''u'') = Reply False (Some ?ch)" for paid
    by simp
  have p: "pay (?be paid) ?ch ([] @ [GetLinks ''u'']) =
             (Inr paid, [GetLinks ''u'', PostDoPayment (JStr ''b'')])" for paid
    by (simp add: pay_def fetch_def optMember_def)
  show ?thesis
    using getLinks_pays_once_then_replays_once
        [of "?be True" "[]" "''u''" False ?ch "[GetLinks ''u'', PostDoPayment (JStr ''b'')]"]
      getLinks_pays_once_then_replays_once
        [of "?be False" "[]" "''u''" False ?ch "[GetLinks ''u'', PostDoPayment (JStr ''b'')]"]
      ch p [of True] p [of False]
    by (simp add: getLinks_no_retry)
qed

text \<open>
  C1. The claim says that, on a challenge body with \<open>retry\<close> true, a payment that does
  not succeed leaves \<open>getLinks\<close> returning the challenge unchanged. In the source a
  \<open>pay\<close> that throws is not caught by \<open>getLinks\<close>: when the link-discovery endpoint
  answers \<^verbatim>\<open>{x402Version: 1, accepts: [{resource: {toString: 1}}]}\<close>, the payment is not
  made, and \<open>getLinks\<close> rejects with the TypeError after its single request instead of
  returning the challenge.
\<close>

theorem getLinks_throws_on_unprintable_resource:
  "getLinks
     (\<lambda>tr req. Reply False (Some (JObj [(''x402Version'', JNum (Finite 1)),
        (''accepts'', JArr [JObj [(''resource'', JObj [(''toString'', JNum (Finite 1))])]])])))
     ''https://example.com'' True []
   = (Inl TypeError, [GetLinks ''https://example.com''])"
  by (subst getLinks.simps)
     (simp add: fetch_def isX402_def optMember_def pay_def)

text \<open>
  C9. The value \<^verbatim>\<open>{x402Version: 1, accepts: []}\<close> is classified as a payment challenge, since
  an empty array is truthy; \<open>pay\<close> returns false on it without a request, since
  \<^verbatim>\<open>accepts[0]\<close> is \<^verbatim>\<open>undefined\<close>; so \<open>getLinks\<close> returns such a response unchanged after
  its single link request.
\<close>

theorem empty_accepts_is_challenge_but_unpayable:
  "truthy (isX402 (JObj [(''x402Version'', JNum (Finite 1)), (''accepts'', JArr [])])) \<and>
   pay be (JObj [(''x402Version'', JNum (Finite 1)), (''accepts'', JArr [])]) tr = (Inr False, tr) \<and>
   (be tr (GetLinks url) =
      Reply ok (Some (JObj [(''x402Version'', JNum (Finite 1)), (''accepts'', JArr [])])) \<longrightarrow>
    getLinks be url True tr =
      (Inr (JObj [(''x402Version'', JNum (Finite 1)), (''accepts'', JArr [])]),
       tr @ [GetLinks url]))"
proof -
  let ?c = "JObj [(''x402Version'', JNum (Finite 1)), (''accepts'', JArr [])]"
  have c: "truthy (isX402 ?c)"
    by (simp add: isX402_def optMember_def)
  have p: "pay be' ?c tr' = (Inr False, tr')" for be' tr'
    by (rule pay_falsy_resource) (simp add: optMember_def)
  have "getLinks be url True tr = (Inr ?c, tr @ [GetLinks url])"
    if "be tr (GetLinks url) = Reply ok (Some ?c)"
    using getLinks_challenge [of be tr url ok ?c] that c by (simp add: p)
  with c p show ?thesis by blast
qed

theorem empty_accepts_is_challenge_but_unpayable_witness:
  "getLinks (\<lambda>tr req. Reply False (Some (JObj [(''x402Version'', JNum (Finite 1)), (''accepts'', JArr [])])))
     ''https://example.com'' True []
   = (Inr (JObj [(''x402Version'', JNum (Finite 1)), (''accepts'', JArr [])]),
      [GetLinks ''https://example.com''])"
  using empty_accepts_is_challenge_but_unpayable
    [of "\<lambda>tr req. Reply False (Some (JObj [(''x402Version'', JNum (Finite 1)), (''accepts'', JArr [])]))"
        "[]" "''https://example.com''" False]
  by simp

section \<open>The text extractor\<close>

lemma payEach_trace_ex:
  "\<exists>ps. snd (payEach be xs tr) = tr @ ps \<and> list_all is_PostDoPayment ps"
proof (induction xs arbitrary: tr)
  case Nil
  then show ?case by simp
next
  case (Cons x xs)
  obtain r tr1 where p: "pay be x tr = (r, tr1)"
    by (cases "pay be x tr")
  obtain ps where ps: "tr1 = tr @ ps" "list_all is_PostDoPayment ps"
    using pay_trace_ex [of be x tr] p by auto
  show ?case
  proof (cases r)
    case (Inl e)
    with p ps show ?thesis by simp
  next
    case (Inr paid)
    obtain qs where "snd (payEach be xs tr1) = tr1 @ qs" "list_all is_PostDoPayment qs"
      using Cons.IH [of tr1] by auto
    with p ps Inr have "snd (payEach be (x # xs) tr) = tr @ (ps @ qs) \<and> list_all is_PostDoPayment (ps @ qs)"
      by simp
    then show ?thesis by blast
  qed
qed

lemma payEach_all:
  assumes "\<forall>x\<in>set xs.
      truthy (optMember (optIndex0 (optMember x ''accepts'')) ''resource'') \<longrightarrow>
      toStringReturns (optMember (optIndex0 (optMember x ''accepts'')) ''resource'')"
  shows "payEach be xs tr =
     (Inr (), tr @ map PostDoPayment
        (filter truthy (map (\<lambda>x. optMember (optIndex0 (optMember x ''accepts'')) ''resource'') xs)))"
  using assms
proof (induction xs arbitrary: tr)
  case Nil
  then show ?case by simp
next
  case (Cons x xs)
  show ?case
  proof (cases "truthy (optMember (optIndex0 (optMember x ''accepts'')) ''resource'')")
    case False
    with Cons show ?thesis
      by (simp add: pay_falsy_resource)
  next
    case True
    with Cons.prems have "toStringReturns (optMember (optIndex0 (optMember x ''accepts'')) ''resource'')"
      by simp
    with True Cons show ?thesis
      by (simp add: pay_requests)
  qed
qed

lemma extractText_no_retry:
  "extractText be urls d False tr =
     (case be tr (PostExtractText urls d) of
        NetworkError \<Rightarrow> (Inl FetchFailed, tr @ [PostExtractText urls d])
      | Reply ok None \<Rightarrow> (Inl JsonParseFailed, tr @ [PostExtractText urls d])
      | Reply ok (Some data) \<Rightarrow>
          (if nullish data then Inl TypeError else Inr data, tr @ [PostExtractText urls d]))"
proof -
  have "\<not> truthy (isX402 data)" if "nullish data" for data
    using that by (cases data) (simp_all add: isX402_def optMember_def)
  then show ?thesis
    by (subst extractText.simps)
       (auto simp: fetch_def dotMember_def split: reply.splits option.splits)
qed

lemma extractText_no_retry_trace:
  "snd (extractText be urls d False tr) = tr @ [PostExtractText urls d]"
  by (simp add: extractText_no_retry split: reply.splits option.splits)

lemma extractText_items:
  assumes "be tr (PostExtractText urls d) = Reply ok (Some data)"
    and "\<not> truthy (isX402 data)"
    and "dotMember data ''results'' = Inr (JArr items)"
    and "filter (\<lambda>item. truthy (isX402 item)) items \<noteq> []"
  shows "extractText be urls d True tr =
     (case payEach be (filter (\<lambda>item. truthy (isX402 item)) items) (tr @ [PostExtractText urls d]) of
        (Inl e, tr2) \<Rightarrow> (Inl e, tr2)
      | (Inr u, tr2) \<Rightarrow> extractText be urls d False tr2)"
  using assms by (subst extractText.simps) (simp add: fetch_def)

lemma extractText_challenge:
  assumes "be tr (PostExtractText urls d) = Reply ok (Some data)" and "truthy (isX402 data)"
  shows "extractText be urls d True tr =
     (case pay be data (tr @ [PostExtractText urls d]) of
        (Inl e, tr2) \<Rightarrow> (Inl e, tr2)
      | (Inr paid, tr2) \<Rightarrow>
          if paid then extractText be urls d False tr2 else (Inr data, tr2))"
  using assms by (subst extractText.simps) (simp add: fetch_def)

lemma extractText_no_items:
  assumes "be tr (PostExtractText urls d) = Reply ok (Some data)"
    and "\<not> truthy (isX402 data)"
    and "dotMember data ''results'' = Inr (JArr items)"
    and "filter (\<lambda>item. truthy (isX402 item)) items = []"
  shows "extractText be urls d retry tr = (Inr data, tr @ [PostExtractText urls d])"
  using assms by (subst extractText.simps) (simp add: fetch_def)

lemma extractText_other_trace:
  assumes "be tr (PostExtractText urls d) = Reply ok (Some data)"
    and "\<not> truthy (isX402 data)"
    and "\<forall>items. dotMember data ''results'' \<noteq> Inr (JArr items)"
  shows "snd (extractText be urls d retry tr) = tr @ [PostExtractText urls d]"
  using assms
  by (subst extractText.simps) (simp add: fetch_def split: sum.splits json.splits)

lemma extractText_trace:
  "\<exists>ps. list_all is_PostDoPayment ps \<and>
     (snd (extractText be urls d True tr) = tr @ PostExtractText urls d # ps \<or>
      snd (extractText be urls d True tr) = tr @ PostExtractText urls d # ps @ [PostExtractText urls d])"
proof -
  let ?E = "PostExtractText urls d"
  let ?goal = "\<lambda>t. \<exists>ps. list_all is_PostDoPayment ps \<and> (t = tr @ ?E # ps \<or> t = tr @ ?E # ps @ [?E])"
  have single: "?goal (tr @ [?E])"
    by (rule exI [of _ "[]"]) simp
  have after: "?goal t"
    if "list_all is_PostDoPayment ps" and "t = (tr @ [?E]) @ ps \<or> t = ((tr @ [?E]) @ ps) @ [?E]"
    for t ps
    using that by auto
  show ?thesis
  proof (cases "be tr ?E")
    case NetworkError
    then have "snd (extractText be urls d True tr) = tr @ [?E]"
      by (subst extractText.simps) (simp add: fetch_def)
    with single show ?thesis by simp
  next
    case (Reply ok body)
    show ?thesis
    proof (cases body)
      case None
      with Reply have "snd (extractText be urls d True tr) = tr @ [?E]"
        by (subst extractText.simps) (simp add: fetch_def)
      with single show ?thesis by simp
    next
      case (Some data)
      note reply = Reply [unfolded Some]
      show ?thesis
      proof (cases "truthy (isX402 data)")
        case True
        obtain r tr2 where p: "pay be data (tr @ [?E]) = (r, tr2)"
          by (cases "pay be data (tr @ [?E])")
        obtain ps where ps: "tr2 = (tr @ [?E]) @ ps" "list_all is_PostDoPayment ps"
          using pay_trace_ex [of be data "tr @ [?E]"] p by auto
        have "snd (extractText be urls d True tr) = tr2 \<or>
              snd (extractText be urls d True tr) = tr2 @ [?E]"
          using reply True p
          by (cases r) (simp_all add: extractText_challenge extractText_no_retry_trace)
        with ps show ?thesis
          by (intro after [of ps]) auto
      next
        case False
        show ?thesis
        proof (cases "\<exists>items. dotMember data ''results'' = Inr (JArr items)")
          case no_array: False
          then have "snd (extractText be urls d True tr) = tr @ [?E]"
            using reply False by (intro extractText_other_trace) auto
          with single show ?thesis by simp
        next
          case True
          then obtain items where items: "dotMember data ''results'' = Inr (JArr items)"
            by blast
          show ?thesis
          proof (cases "filter (\<lambda>item. truthy (isX402 item)) items = []")
            case True
            then have "snd (extractText be urls d True tr) = tr @ [?E]"
              using reply False items by (simp add: extractText_no_items)
            with single show ?thesis by simp
          next
            case some: False
            let ?xs = "filter (\<lambda>item. truthy (isX402 item)) items"
            obtain r tr2 where p: "payEach be ?xs (tr @ [?E]) = (r, tr2)"
              by (cases "payEach be ?xs (tr @ [?E])")
            obtain ps where ps: "tr2 = (tr @ [?E]) @ ps" "list_all is_PostDoPayment ps"
              using payEach_trace_ex [of be ?xs "tr @ [?E]"] p by auto
            have "snd (extractText be urls d True tr) = tr2 \<or>
                  snd (extractText be urls d True tr) = tr2 @ [?E]"
              using p extractText_items [of be tr urls d ok data items] reply False items some
              by (cases r) (simp_all add: extractText_no_retry_trace)
            with ps show ?thesis
              by (intro after [of ps]) auto
          qed
        qed
      qed
    qed
  qed
qed

lemma payment_is_no_fetch:
  "is_PostDoPayment r \<Longrightarrow> \<not> is_GetLinks r \<and> \<not> is_PostExtractText r"
  by (cases r) simp_all

lemma payments_are_not_fetches:
  assumes "list_all is_PostDoPayment ps"
  shows "filter is_GetLinks ps = []" and "filter is_PostExtractText ps = []"
  using assms by (auto simp: list_all_iff filter_empty_conv dest: payment_is_no_fetch)

text \<open>
  What \<open>extractText\<close> does on a response that is not a challenge itself and whose
  \<^verbatim>\<open>results\<close> array holds challenges, when no \<open>pay\<close> throws: one payment attempt for each
  matching item, in order, whatever the earlier ones returned (an item without a
  resource makes no request), then one more extraction request, whose body is returned
  as it is unless it is \<^verbatim>\<open>null\<close>.
\<close>

lemma extractText_pays_each_then_retries:
  assumes reply: "be tr (PostExtractText urls d) = Reply ok (Some data)"
    and top: "\<not> truthy (isX402 data)"
    and results: "dotMember data ''results'' = Inr (JArr items)"
    and some: "filter (\<lambda>item. truthy (isX402 item)) items \<noteq> []"
    and printable: "\<forall>x\<in>set items.
      truthy (optMember (optIndex0 (optMember x ''accepts'')) ''resource'') \<longrightarrow>
      toStringReturns (optMember (optIndex0 (optMember x ''accepts'')) ''resource'')"
    and paid: "tr2 = tr @ PostExtractText urls d # map PostDoPayment
        (filter truthy (map (\<lambda>x. optMember (optIndex0 (optMember x ''accepts'')) ''resource'')
           (filter (\<lambda>item. truthy (isX402 item)) items)))"
  shows "payEach be (filter (\<lambda>item. truthy (isX402 item)) items) (tr @ [PostExtractText urls d])
           = (Inr (), tr2)"
    and "extractText be urls d True tr = extractText be urls d False tr2"
    and "snd (extractText be urls d True tr) = tr2 @ [PostExtractText urls d]"
    and "be tr2 (PostExtractText urls d) = Reply ok' (Some data') \<Longrightarrow> \<not> nullish data' \<Longrightarrow>
         extractText be urls d True tr = (Inr data', tr2 @ [PostExtractText urls d])"
proof -
  show p: "payEach be (filter (\<lambda>item. truthy (isX402 item)) items) (tr @ [PostExtractText urls d])
           = (Inr (), tr2)"
    using printable by (subst payEach_all) (auto simp: paid)
  show r: "extractText be urls d True tr = extractText be urls d False tr2"
    using extractText_items [of be tr urls d ok data items] reply top results some
    by (simp add: p)
  then show "snd (extractText be urls d True tr) = tr2 @ [PostExtractText urls d]"
    by (simp add: extractText_no_retry_trace)
  show "extractText be urls d True tr = (Inr data', tr2 @ [PostExtractText urls d])"
    if "be tr2 (PostExtractText urls d) = Reply ok' (Some data')" "\<not> nullish data'"
    using that by (simp add: r extractText_no_retry)
qed

text \<open>
  The scenario of the specification: one matching item, a payment that succeeds, and a
  retried response without challenges.
\<close>

lemma extractText_pays_each_then_retries_example:
  "extractText
     (\<lambda>tr req. case req of
        PostExtractText us d \<Rightarrow>
          if tr = [] then Reply True (Some (JObj [(''results'', JArr
              [JObj [(''url'', JStr ''a''), (''text'', JStr ''t'')],
               JObj [(''x402Version'', JNum (Finite 1)),
                     (''accepts'', JArr [JObj [(''resource'', JStr ''b'')]])]])]))
          else Reply True (Some (JObj [(''results'', JArr
              [JObj [(''url'', JStr ''a''), (''text'', JStr ''t'')],
               JObj [(''url'', JStr ''b''), (''text'', JStr ''s'')]])]))
      | PostDoPayment r \<Rightarrow> Reply True None
      | GetLinks u \<Rightarrow> NetworkError)
     [JStr ''a'', JStr ''b''] ''example.com'' True []
   = (Inr (JObj [(''results'', JArr
              [JObj [(''url'', JStr ''a''), (''text'', JStr ''t'')],
               JObj [(''url'', JStr ''b''), (''text'', JStr ''s'')]])]),
      [PostExtractText [JStr ''a'', JStr ''b''] ''example.com'',
       PostDoPayment (JStr ''b''),
       PostExtractText [JStr ''a'', JStr ''b''] ''example.com''])"
proof -
  let ?item = "JObj [(''x402Version'', JNum (Finite 1)),
                     (''accepts'', JArr [JObj [(''resource'', JStr ''b'')]])]"
  let ?items = "[JObj [(''url'', JStr ''a''), (''text'', JStr ''t'')], ?item]"
  let ?first = "JObj [(''results'', JArr ?items)]"
  let ?second = "JObj [(''results'', JArr
              [JObj [(''url'', JStr ''a''), (''text'', JStr ''t'')],
               JObj [(''url'', JStr ''b''), (''text'', JStr ''s'')]])]"
  let ?be = "\<lambda>tr req. case req of
        PostExtractText us d \<Rightarrow> if tr = [] then Reply True (Some ?first) else Reply True (Some ?second)
      | PostDoPayment r \<Rightarrow> Reply True None
      | GetLinks u \<Rightarrow> NetworkError"
  let ?E = "PostExtractText [JStr ''a'', JStr ''b''] ''example.com''"
  have sel: "filter (\<lambda>item. truthy (isX402 item)) ?items = [?item]"
    by (simp add: isX402_def optMember_def)
  show ?thesis
    using extractText_pays_each_then_retries(4)
      [of ?be "[]" "[JStr ''a'', JStr ''b'']" "''example.com''" True ?first ?items
          "[?E, PostDoPayment (JStr ''b'')]" True ?second]
    by (simp add: sel) (simp add: isX402_def optMember_def dotMember_def)
qed

text \<open>
  C2. The claim says that payment is attempted for every matching item and that one
  retried extraction follows, whatever the payments do. In the source a \<open>pay\<close> that
  throws ends the loop and the call: on the response
  \<^verbatim>\<open>{results: [{url: "a", text: "t"}, {x402Version: 1, accepts: [{resource: {toString: 1}}]},
  {x402Version: 1, accepts: [{resource: "b"}]}]}\<close> the first matching item makes \<open>pay\<close> throw,
  no payment is attempted for the second one, and no retried extraction is made.
\<close>

theorem extractText_throws_on_unprintable_item:
  "extractText
     (\<lambda>tr req. Reply True (Some (JObj [(''results'', JArr
        [JObj [(''url'', JStr ''a''), (''text'', JStr ''t'')],
         JObj [(''x402Version'', JNum (Finite 1)),
               (''accepts'', JArr [JObj [(''resource'', JObj [(''toString'', JNum (Finite 1))])]])],
         JObj [(''x402Version'', JNum (Finite 1)),
               (''accepts'', JArr [JObj [(''resource'', JStr ''b'')]])]])])))
     [JStr ''a'', JStr ''c'', JStr ''b''] ''example.com'' True []
   = (Inl TypeError, [PostExtractText [JStr ''a'', JStr ''c'', JStr ''b''] ''example.com''])"
  by (subst extractText.simps)
     (simp add: fetch_def isX402_def optMember_def dotMember_def pay_def)

section \<open>The retry cap\<close>

text \<open>
  C3. A call with \<open>retry = False\<close> makes exactly one request to its endpoint. A call with
  the default \<open>retry = True\<close> extends the list of requests, and among the requests it
  adds at most two go to its endpoint, whatever the backend answers, challenges in the
  retried response included.
\<close>

theorem at_most_one_replay:
  "snd (getLinks be url False tr) = tr @ [GetLinks url] \<and>
   prefix tr (snd (getLinks be url True tr)) \<and>
   length (filter is_GetLinks (drop (length tr) (snd (getLinks be url True tr)))) \<le> 2 \<and>
   snd (extractText be urls d False tr) = tr @ [PostExtractText urls d] \<and>
   prefix tr (snd (extractText be urls d True tr)) \<and>
   length (filter is_PostExtractText (drop (length tr) (snd (extractText be urls d True tr)))) \<le> 2"
proof -
  obtain ps where ps: "list_all is_PostDoPayment ps"
    "snd (getLinks be url True tr) = tr @ GetLinks url # ps \<or>
     snd (getLinks be url True tr) = tr @ GetLinks url # ps @ [GetLinks url]"
    using getLinks_trace [of be url tr] by blast
  obtain qs where qs: "list_all is_PostDoPayment qs"
    "snd (extractText be urls d True tr) = tr @ PostExtractText urls d # qs \<or>
     snd (extractText be urls d True tr) = tr @ PostExtractText urls d # qs @ [PostExtractText urls d]"
    using extractText_trace [of be urls d tr] by blast
  have "prefix tr (snd (getLinks be url True tr)) \<and>
    length (filter is_GetLinks (drop (length tr) (snd (getLinks be url True tr)))) \<le> 2"
    using ps(2) payments_are_not_fetches(1) [OF ps(1)] by auto
  moreover have "prefix tr (snd (extractText be urls d True tr)) \<and>
    length (filter is_PostExtractText (drop (length tr) (snd (extractText be urls d True tr)))) \<le> 2"
    using qs(2) payments_are_not_fetches(2) [OF qs(1)] by auto
  ultimately show ?thesis
    by (simp add: getLinks_no_retry_trace extractText_no_retry_trace)
qed

section \<open>The domain filter and the tools\<close>

lemma replace_www_leading_only:
  assumes "prefix ''www.'' h \<or> \<not> sublist ''www.'' h"
  shows "replace h ''www.'' '''' = spec_stripLeadingWww h"
proof (cases "prefix ''www.'' h")
  case True
  then show ?thesis
    by (simp add: replace_prefix spec_stripLeadingWww_def eval_nat_numeral)
next
  case False
  with assms have "\<not> sublist ''www.'' h" by simp
  with False show ?thesis
    by (simp add: replace_absent spec_stripLeadingWww_def)
qed

lemma filterUrls_as_filter:
  "filterUrls hostname links domain =
     filter (\<lambda>link. \<exists>h. hostname link = Some h \<and>
                (\<forall>s\<in>{''github.com'', ''linkedin.com'', ''instagram.com'', ''twitter.com'',
                      ''facebook.com'', ''youtube.com'', ''x.com''}.
                   \<not> sublist s (replace h ''www.'' '''')) \<and>
                sublist (replace domain ''www.'' '''') (replace h ''www.'' '''')) links"
  unfolding filterUrls_def
  by (rule filter_cong [OF refl])
     (auto simp: includesStr_sublist socials_def Let_def split: option.splits)

text \<open>
  C6, as stated, fails where \<^verbatim>\<open>www.\<close> occurs inside a hostname. A link with the hostname
  \<^verbatim>\<open>shop.www.example.com\<close> is kept for the domain \<^verbatim>\<open>shop.example.com\<close>, which that
  hostname, a leading \<^verbatim>\<open>www.\<close> stripped, does not contain; and a link with the hostname
  \<^verbatim>\<open>linkedin.www.com.example.com\<close> is excluded for the domain \<^verbatim>\<open>example.com\<close>, although
  that hostname contains the domain and no social-media hostname.
\<close>

theorem filterUrls_not_leading_strip_counterexample:
  "filterUrls
     (map_of [(''https://shop.www.example.com/a'', ''shop.www.example.com'')])
     [''https://shop.www.example.com/a''] ''shop.example.com''
   = [''https://shop.www.example.com/a''] \<and>
   \<not> sublist (spec_stripLeadingWww ''shop.example.com'')
              (spec_stripLeadingWww ''shop.www.example.com'') \<and>
   spec_filterUrls
     (map_of [(''https://shop.www.example.com/a'', ''shop.www.example.com'')])
     [''https://shop.www.example.com/a''] ''shop.example.com''
   = [] \<and>
   filterUrls
     (map_of [(''https://linkedin.www.com.example.com/a'', ''linkedin.www.com.example.com'')])
     [''https://linkedin.www.com.example.com/a''] ''example.com''
   = [] \<and>
   spec_filterUrls
     (map_of [(''https://linkedin.www.com.example.com/a'', ''linkedin.www.com.example.com'')])
     [''https://linkedin.www.com.example.com/a''] ''example.com''
   = [''https://linkedin.www.com.example.com/a'']"
  by (simp add: filterUrls_def socials_def spec_filterUrls_def spec_stripLeadingWww_def
        sublist_Cons_right)

text \<open>
  C6, amended. \<open>filterUrls\<close> returns a subsequence of its input: the links, in their
  order and with their repetitions, for which the URL parses, and whose host, the
  hostname with the first occurrence of \<^verbatim>\<open>www.\<close> removed wherever it occurs, contains none
  of the seven social-media hostnames and contains the target domain, with its first
  occurrence of \<^verbatim>\<open>www.\<close> removed. A link that does not parse is left out, and the
  function returns a list in every case. Where \<^verbatim>\<open>www.\<close> occurs in the hostnames and in
  the domain only as a leading prefix, or not at all, the result is that of the filter in
  the words of the specification. With the hostnames the URL parser gives the four links
  of the example, the result for the domain \<^verbatim>\<open>example.com\<close> is the second and third
  link; a second example has a link that only the social list excludes, a domain with
  a leading \<^verbatim>\<open>www.\<close>, and a repeated link.
\<close>

theorem filterUrls_first_www_removed:
  "subseq (filterUrls hostname links domain) links \<and>
   filterUrls hostname links domain =
     filter (\<lambda>link. \<exists>h. hostname link = Some h \<and>
                (\<forall>s\<in>{''github.com'', ''linkedin.com'', ''instagram.com'', ''twitter.com'',
                      ''facebook.com'', ''youtube.com'', ''x.com''}.
                   \<not> sublist s (replace h ''www.'' '''')) \<and>
                sublist (replace domain ''www.'' '''') (replace h ''www.'' '''')) links \<and>
   ((\<forall>link\<in>set links. \<forall>h. hostname link = Some h \<longrightarrow>
        prefix ''www.'' h \<or> \<not> sublist ''www.'' h) \<and>
    (prefix ''www.'' domain \<or> \<not> sublist ''www.'' domain) \<longrightarrow>
    filterUrls hostname links domain = spec_filterUrls hostname links domain) \<and>
   (parse ''https://github.com/x'' = Some ''github.com'' \<and>
    parse ''https://sub.example.com/a'' = Some ''sub.example.com'' \<and>
    parse ''https://www.example.com/b'' = Some ''www.example.com'' \<and>
    parse ''not a url'' = None \<longrightarrow>
    filterUrls parse
      [''https://github.com/x'', ''https://sub.example.com/a'',
       ''https://www.example.com/b'', ''not a url''] ''example.com''
    = [''https://sub.example.com/a'', ''https://www.example.com/b'']) \<and>
   (parse ''https://github.com.example.com/x'' = Some ''github.com.example.com'' \<and>
    parse ''https://www.example.com/b'' = Some ''www.example.com'' \<and>
    parse ''https://example.org/c'' = Some ''example.org'' \<longrightarrow>
    filterUrls parse
      [''https://github.com.example.com/x'', ''https://www.example.com/b'',
       ''https://example.org/c'', ''https://www.example.com/b''] ''www.example.com''
    = [''https://www.example.com/b'', ''https://www.example.com/b''])"
proof (intro conjI impI)
  show "subseq (filterUrls hostname links domain) links"
    by (simp add: filterUrls_def)
  show "filterUrls hostname links domain =
     filter (\<lambda>link. \<exists>h. hostname link = Some h \<and>
                (\<forall>s\<in>{''github.com'', ''linkedin.com'', ''instagram.com'', ''twitter.com'',
                      ''facebook.com'', ''youtube.com'', ''x.com''}.
                   \<not> sublist s (replace h ''www.'' '''')) \<and>
                sublist (replace domain ''www.'' '''') (replace h ''www.'' '''')) links"
    by (rule filterUrls_as_filter)
  {
    assume lead: "(\<forall>link\<in>set links. \<forall>h. hostname link = Some h \<longrightarrow>
        prefix ''www.'' h \<or> \<not> sublist ''www.'' h) \<and>
      (prefix ''www.'' domain \<or> \<not> sublist ''www.'' domain)"
    then have d: "replace domain ''www.'' '''' = spec_stripLeadingWww domain"
      by (simp add: replace_www_leading_only)
    have h: "replace h ''www.'' '''' = spec_stripLeadingWww h"
      if "link \<in> set links" "hostname link = Some h" for link h
      using lead that by (intro replace_www_leading_only) blast
    show "filterUrls hostname links domain = spec_filterUrls hostname links domain"
      unfolding filterUrls_def spec_filterUrls_def
      by (rule filter_cong [OF refl])
         (auto simp: includesStr_sublist socials_def Let_def d h split: option.splits)
  }
  {
    assume "parse ''https://github.com/x'' = Some ''github.com'' \<and>
      parse ''https://sub.example.com/a'' = Some ''sub.example.com'' \<and>
      parse ''https://www.example.com/b'' = Some ''www.example.com'' \<and>
      parse ''not a url'' = None"
    then show "filterUrls parse
        [''https://github.com/x'', ''https://sub.example.com/a'',
         ''https://www.example.com/b'', ''not a url''] ''example.com''
      = [''https://sub.example.com/a'', ''https://www.example.com/b'']"
      by (simp add: filterUrls_def socials_def)
  }
  {
    assume "parse ''https://github.com.example.com/x'' = Some ''github.com.example.com'' \<and>
      parse ''https://www.example.com/b'' = Some ''www.example.com'' \<and>
      parse ''https://example.org/c'' = Some ''example.org''"
    then show "filterUrls parse
        [''https://github.com.example.com/x'', ''https://www.example.com/b'',
         ''https://example.org/c'', ''https://www.example.com/b''] ''www.example.com''
      = [''https://www.example.com/b'', ''https://www.example.com/b'']"
      by (simp add: filterUrls_def socials_def)
  }
qed

theorem filterUrls_first_www_removed_witness:
  "filterUrls
     (map_of [(''https://github.com/x'', ''github.com''),
              (''https://sub.example.com/a'', ''sub.example.com''),
              (''https://www.example.com/b'', ''www.example.com''),
              (''https://github.com.example.com/x'', ''github.com.example.com''),
              (''https://example.org/c'', ''example.org'')])
     [''https://github.com/x'', ''https://sub.example.com/a'',
      ''https://www.example.com/b'', ''not a url''] ''example.com''
   = [''https://sub.example.com/a'', ''https://www.example.com/b''] \<and>
   spec_filterUrls
     (map_of [(''https://github.com/x'', ''github.com''),
              (''https://sub.example.com/a'', ''sub.example.com''),
              (''https://www.example.com/b'', ''www.example.com''),
              (''https://github.com.example.com/x'', ''github.com.example.com''),
              (''https://example.org/c'', ''example.org'')])
     [''https://github.com/x'', ''https://sub.example.com/a'',
      ''https://www.example.com/b'', ''not a url''] ''example.com''
   = [''https://sub.example.com/a'', ''https://www.example.com/b''] \<and>
   filterUrls
     (map_of [(''https://github.com/x'', ''github.com''),
              (''https://sub.example.com/a'', ''sub.example.com''),
              (''https://www.example.com/b'', ''www.example.com''),
              (''https://github.com.example.com/x'', ''github.com.example.com''),
              (''https://example.org/c'', ''example.org'')])
     [''https://github.com.example.com/x'', ''https://www.example.com/b'',
      ''https://example.org/c'', ''https://www.example.com/b''] ''www.example.com''
   = [''https://www.example.com/b'', ''https://www.example.com/b'']"
proof -
  let ?parse = "map_of [(''https://github.com/x'', ''github.com''),
              (''https://sub.example.com/a'', ''sub.example.com''),
              (''https://www.example.com/b'', ''www.example.com''),
              (''https://github.com.example.com/x'', ''github.com.example.com''),
              (''https://example.org/c'', ''example.org'')]"
  let ?links = "[''https://github.com/x'', ''https://sub.example.com/a'',
      ''https://www.example.com/b'', ''not a url'']"
  have parses: "?parse ''https://github.com/x'' = Some ''github.com''"
    "?parse ''https://sub.example.com/a'' = Some ''sub.example.com''"
    "?parse ''https://www.example.com/b'' = Some ''www.example.com''"
    "?parse ''not a url'' = None"
    "?parse ''https://github.com.example.com/x'' = Some ''github.com.example.com''"
    "?parse ''https://example.org/c'' = Some ''example.org''"
    by simp_all
  have lead: "(\<forall>link\<in>set ?links. \<forall>h. ?parse link = Some h \<longrightarrow>
        prefix ''www.'' h \<or> \<not> sublist ''www.'' h) \<and>
      (prefix ''www.'' ''example.com'' \<or> \<not> sublist ''www.'' ''example.com'')"
    by (auto simp: sublist_Cons_right)
  have spec: "spec_filterUrls ?parse ?links ''example.com''
      = [''https://sub.example.com/a'', ''https://www.example.com/b'']"
    by (simp add: spec_filterUrls_def spec_stripLeadingWww_def sublist_Cons_right)
  note t = filterUrls_first_www_removed [of ?parse ?links "''example.com''" ?parse]
  from t parses have a: "filterUrls ?parse ?links ''example.com''
      = [''https://sub.example.com/a'', ''https://www.example.com/b'']"
    by blast
  from t lead have b: "filterUrls ?parse ?links ''example.com'' = spec_filterUrls ?parse ?links ''example.com''"
    by blast
  from t parses have c: "filterUrls ?parse
      [''https://github.com.example.com/x'', ''https://www.example.com/b'',
       ''https://example.org/c'', ''https://www.example.com/b''] ''www.example.com''
    = [''https://www.example.com/b'', ''https://www.example.com/b'']"
    by blast
  from a b c show ?thesis by simp
qed

text \<open>
  C10. The \<^verbatim>\<open>extract_text\<close> tool filters its \<^verbatim>\<open>urls\<close> argument first. When nothing is
  left it returns the fixed text \<^verbatim>\<open>No URLs matched domain filter\<close>, which is not the
  serialisation of a payload, and makes no request; otherwise the extractor receives the
  filtered list.
\<close>

theorem extract_text_filters_first:
  "(filterUrls (\<lambda>s. hostname (JStr s)) (arg_urls args) (arg_domain args) = [] \<longrightarrow>
      callTool be hostname ''extract_text'' args tr
        = (Inr (Plain ''No URLs matched domain filter''), tr)) \<and>
   (filterUrls (\<lambda>s. hostname (JStr s)) (arg_urls args) (arg_domain args) \<noteq> [] \<longrightarrow>
      callTool be hostname ''extract_text'' args tr
        = (case extractText be
                  (map JStr (filterUrls (\<lambda>s. hostname (JStr s)) (arg_urls args) (arg_domain args)))
                  (arg_domain args) True tr of
             (Inl e, tr1) \<Rightarrow> (Inl e, tr1)
           | (Inr result, tr1) \<Rightarrow> (Inr (Stringify result), tr1)))"
  by (simp add: callTool_def Let_def)

theorem extract_text_filters_first_witness:
  "callTool (\<lambda>tr req. NetworkError) (\<lambda>v. None) ''extract_text''
     \<lparr>arg_url = '''', arg_urls = [''not a url''], arg_domain = ''example.com''\<rparr> []
   = (Inr (Plain ''No URLs matched domain filter''), []) \<and>
   callTool (\<lambda>tr req. NetworkError) (\<lambda>v. Some ''example.com'') ''extract_text''
     \<lparr>arg_url = '''', arg_urls = [''https://example.com/a''], arg_domain = ''example.com''\<rparr> []
   = (Inl FetchFailed, [PostExtractText [JStr ''https://example.com/a''] ''example.com''])"
  using extract_text_filters_first
    [of "\<lambda>v. None" "\<lparr>arg_url = '''', arg_urls = [''not a url''], arg_domain = ''example.com''\<rparr>"
        "\<lambda>tr req. NetworkError" "[]"]
    extract_text_filters_first
    [of "\<lambda>v. Some ''example.com''"
        "\<lparr>arg_url = '''', arg_urls = [''https://example.com/a''], arg_domain = ''example.com''\<rparr>"
        "\<lambda>tr req. NetworkError" "[]"]
  by (simp add: filterUrls_def socials_def extractText.simps fetch_def)

lemma getLinks_no_extraction:
  assumes "getLinks be url True tr = (r, tr1)"
  shows "prefix tr tr1 \<and> filter is_PostExtractText (drop (length tr) tr1) = []"
proof -
  obtain ps where ps: "list_all is_PostDoPayment ps"
    "snd (getLinks be url True tr) = tr @ GetLinks url # ps \<or>
     snd (getLinks be url True tr) = tr @ GetLinks url # ps @ [GetLinks url]"
    using getLinks_trace [of be url tr] by blast
  then show ?thesis
    using assms payments_are_not_fetches(2) [OF ps(1)] by auto
qed

text \<open>
  C8. In \<^verbatim>\<open>scrape_website\<close>, once the URL has parsed and \<open>getLinks\<close> has returned: if its
  result is still a payment challenge, the payload is
  \<^verbatim>\<open>{error: "Payment failed for links", x402: <challenge>}\<close>; if the filtered list is
  empty, the payload has \<^verbatim>\<open>filtered: []\<close> and \<^verbatim>\<open>message: "No internal links found"\<close>. In
  both cases the requests made are those of \<open>getLinks\<close>, none of which is an extraction
  request.
\<close>

theorem scrape_website_stops_without_links:
  assumes "hostname (JStr (arg_url args)) = Some h"
    and "getLinks be (arg_url args) True tr = (Inr links, tr1)"
  shows
    "(truthy (isX402 links) \<longrightarrow>
        callTool be hostname ''scrape_website'' args tr
          = (Inr (Stringify (JObj [(''error'', JStr ''Payment failed for links''),
                                   (''x402'', links)])), tr1)) \<and>
     (\<not> truthy (isX402 links) \<and> dotMember links ''links'' = Inr ls \<and>
      (if truthy ls then ls else JArr []) = JArr xs \<and>
      filterUrls hostname xs (replace h ''www.'' '''') = [] \<longrightarrow>
        callTool be hostname ''scrape_website'' args tr
          = (Inr (Stringify (JObj [(''links'', ls), (''filtered'', JArr []),
                                   (''message'', JStr ''No internal links found'')])), tr1)) \<and>
     prefix tr tr1 \<and> filter is_PostExtractText (drop (length tr) tr1) = []"
proof (intro conjI impI)
  assume "truthy (isX402 links)"
  then show "callTool be hostname ''scrape_website'' args tr
          = (Inr (Stringify (JObj [(''error'', JStr ''Payment failed for links''),
                                   (''x402'', links)])), tr1)"
    using assms by (simp add: callTool_def)
next
  assume "\<not> truthy (isX402 links) \<and> dotMember links ''links'' = Inr ls \<and>
      (if truthy ls then ls else JArr []) = JArr xs \<and>
      filterUrls hostname xs (replace h ''www.'' '''') = []"
  then show "callTool be hostname ''scrape_website'' args tr
          = (Inr (Stringify (JObj [(''links'', ls), (''filtered'', JArr []),
                                   (''message'', JStr ''No internal links found'')])), tr1)"
    using assms by (simp add: callTool_def)
next
  show "prefix tr tr1" "filter is_PostExtractText (drop (length tr) tr1) = []"
    using getLinks_no_extraction [OF assms(2)] by simp_all
qed

theorem scrape_website_stops_without_links_witness:
  "callTool
     (\<lambda>tr req. case req of
        GetLinks u \<Rightarrow> Reply False (Some (JObj [(''x402Version'', JNum (Finite 1)),
                         (''accepts'', JArr [JObj [(''resource'', JStr ''https://example.com'')]])]))
      | PostDoPayment r \<Rightarrow> Reply False None
      | PostExtractText us d \<Rightarrow> NetworkError)
     (\<lambda>v. if v = JStr ''https://example.com'' then Some ''example.com'' else None)
     ''scrape_website'' \<lparr>arg_url = ''https://example.com'', arg_urls = [], arg_domain = ''''\<rparr> []
   = (Inr (Stringify (JObj [(''error'', JStr ''Payment failed for links''),
        (''x402'', JObj [(''x402Version'', JNum (Finite 1)),
                         (''accepts'', JArr [JObj [(''resource'', JStr ''https://example.com'')]])])])),
      [GetLinks ''https://example.com'', PostDoPayment (JStr ''https://example.com'')]) \<and>
   callTool
     (\<lambda>tr req. Reply True (Some (JObj [(''links'', JArr [JStr ''https://github.com/x''])])))
     (\<lambda>v. if v = JStr ''https://example.com'' then Some ''example.com''
           else if v = JStr ''https://github.com/x'' then Some ''github.com'' else None)
     ''scrape_website'' \<lparr>arg_url = ''https://example.com'', arg_urls = [], arg_domain = ''''\<rparr> []
   = (Inr (Stringify (JObj [(''links'', JArr [JStr ''https://github.com/x'']),
                            (''filtered'', JArr []),
                            (''message'', JStr ''No internal links found'')])),
      [GetLinks ''https://example.com''])"
proof -
  let ?ch = "JObj [(''x402Version'', JNum (Finite 1)),
                   (''accepts'', JArr [JObj [(''resource'', JStr ''https://example.com'')]])]"
  let ?be1 = "\<lambda>tr req. case req of
        GetLinks u \<Rightarrow> Reply False (Some ?ch)
      | PostDoPayment r \<Rightarrow> Reply False None
      | PostExtractText us d \<Rightarrow> NetworkError"
  let ?hn1 = "\<lambda>v. if v = JStr ''https://example.com'' then Some ''example.com'' else None"
  let ?ls = "JObj [(''links'', JArr [JStr ''https://github.com/x''])]"
  let ?be2 = "\<lambda>tr req. Reply True (Some ?ls)"
  let ?hn2 = "\<lambda>v. if v = JStr ''https://example.com'' then Some ''example.com''
           else if v = JStr ''https://github.com/x'' then Some ''github.com'' else None"
  let ?args = "\<lparr>arg_url = ''https://example.com'', arg_urls = [], arg_domain = ''''\<rparr>"
  have ch: "truthy (isX402 ?ch)" and ls: "\<not> truthy (isX402 ?ls)"
    by (simp_all add: isX402_def optMember_def)
  have g1: "getLinks ?be1 (arg_url ?args) True [] =
      (Inr ?ch, [GetLinks ''https://example.com'', PostDoPayment (JStr ''https://example.com'')])"
    using getLinks_challenge [of ?be1 "[]" "''https://example.com''" False ?ch] ch
    by (simp add: pay_def fetch_def optMember_def)
  have g2: "getLinks ?be2 (arg_url ?args) True [] = (Inr ?ls, [GetLinks ''https://example.com''])"
    using getLinks_plain [of ?be2 "[]" "''https://example.com''" True ?ls True] ls
    by simp
  have f: "filterUrls ?hn2 [JStr ''https://github.com/x''] (replace ''example.com'' ''www.'' '''') = []"
    by (simp add: filterUrls_def socials_def)
  show ?thesis
    using scrape_website_stops_without_links
        [of ?hn1 ?args "''example.com''" ?be1 "[]" ?ch _ JUndefined "[]", OF _ g1]
      scrape_website_stops_without_links
        [of ?hn2 ?args "''example.com''" ?be2 "[]" ?ls _
            "JArr [JStr ''https://github.com/x'']" "[JStr ''https://github.com/x'']", OF _ g2]
      ch ls f
    by (simp add: dotMember_def)
qed

section \<open>The host used in domain comparisons\<close>

lemma filterUrls_compares:
  "filterUrls hostname cands domain =
     filter (\<lambda>link. \<exists>h. hostname link = Some h \<and>
                \<not> list_ex (\<lambda>s. sublist s (replace h ''www.'' '''')) socials \<and>
                sublist (replace domain ''www.'' '''') (replace h ''www.'' '''')) cands"
  unfolding filterUrls_def
  by (rule filter_cong [OF refl])
     (auto simp: includesStr_sublist list_ex_iff Let_def split: option.splits)

text \<open>
  C5, as stated, fails: the hostname \<^verbatim>\<open>sub.www.example.com\<close> does not begin with
  \<^verbatim>\<open>www.\<close>, yet the value compared is \<^verbatim>\<open>sub.example.com\<close>; the filter therefore keeps a
  link of that host for the domain \<^verbatim>\<open>sub.example.com\<close>, which the hostname does not
  contain.
\<close>

theorem www_not_leading_counterexample:
  "\<not> prefix ''www.'' ''sub.www.example.com'' \<and>
   replace ''sub.www.example.com'' ''www.'' '''' = ''sub.example.com'' \<and>
   replace ''sub.www.example.com'' ''www.'' '''' \<noteq> ''sub.www.example.com'' \<and>
   \<not> includesStr ''sub.www.example.com'' ''sub.example.com'' \<and>
   filterUrls (\<lambda>link. if link = ''https://sub.www.example.com/a''
                        then Some ''sub.www.example.com'' else None)
     [''https://sub.www.example.com/a''] ''sub.example.com''
   = [''https://sub.www.example.com/a'']"
  by (simp add: filterUrls_def socials_def)

text \<open>
  C5, amended. The host value the Domain Filter compares for a link is
  \<open>replace h ''www.'' ''''\<close> for the link's hostname \<open>h\<close>, and the target it is compared
  with is the \<open>domain\<close> argument after the same replacement. The \<^verbatim>\<open>scrape_website\<close>
  branch of \<open>callTool\<close> derives the target domain from the hostname \<open>u\<close> of the URL as
  \<open>replace u ''www.'' ''''\<close> and passes it to \<open>filterUrls\<close> and to \<open>extractText\<close>; since
  \<open>filterUrls\<close> replaces again, the links of a scrape are compared with \<open>u\<close> after two
  replacements. The replacement removes the first occurrence of \<^verbatim>\<open>www.\<close>, wherever it
  occurs: a leading \<^verbatim>\<open>www.\<close> is stripped; a hostname in which \<^verbatim>\<open>www.\<close> does not occur is
  unchanged; and when the first occurrence follows a prefix \<open>p\<close>, the value is \<open>p\<close>
  followed by what comes after that occurrence.
\<close>

theorem compared_host_first_www_removed:
  "filterUrls hostname cands domain =
     filter (\<lambda>link. \<exists>h. hostname link = Some h \<and>
                \<not> list_ex (\<lambda>s. sublist s (replace h ''www.'' '''')) socials \<and>
                sublist (replace domain ''www.'' '''') (replace h ''www.'' '''')) cands \<and>
   filterUrls parse xs (replace u ''www.'' '''') =
     filter (\<lambda>link. \<exists>h. parse link = Some h \<and>
                \<not> list_ex (\<lambda>s. sublist s (replace h ''www.'' '''')) socials \<and>
                sublist (replace (replace u ''www.'' '''') ''www.'' '''')
                        (replace h ''www.'' '''')) xs \<and>
   (parse (JStr (arg_url args)) = Some u \<and>
    getLinks be (arg_url args) True tr = (Inr links, tr1) \<and>
    \<not> truthy (isX402 links) \<and> dotMember links ''links'' = Inr (JArr xs) \<longrightarrow>
    callTool be parse ''scrape_website'' args tr =
      (if filterUrls parse xs (replace u ''www.'' '''') = [] then
         (Inr (Stringify (JObj [(''links'', JArr xs), (''filtered'', JArr []),
                                (''message'', JStr ''No internal links found'')])), tr1)
       else
         (case extractText be (filterUrls parse xs (replace u ''www.'' ''''))
                 (replace u ''www.'' '''') True tr1 of
            (Inl e, tr2) \<Rightarrow> (Inl e, tr2)
          | (Inr extracted, tr2) \<Rightarrow>
              (Inr (Stringify (JObj [(''links'', links),
                     (''filtered'', JArr (filterUrls parse xs (replace u ''www.'' ''''))),
                     (''extracted'', extracted)])), tr2)))) \<and>
   (prefix ''www.'' h \<longrightarrow> replace h ''www.'' '''' = drop 4 h) \<and>
   (\<not> sublist ''www.'' h \<longrightarrow> replace h ''www.'' '''' = h) \<and>
   (h = p @ ''www.'' @ s \<and> \<not> sublist ''www.'' (p @ ''www'') \<longrightarrow>
      replace h ''www.'' '''' = p @ s)"
proof (intro conjI impI)
  show "filterUrls hostname cands domain =
     filter (\<lambda>link. \<exists>h. hostname link = Some h \<and>
                \<not> list_ex (\<lambda>s. sublist s (replace h ''www.'' '''')) socials \<and>
                sublist (replace domain ''www.'' '''') (replace h ''www.'' '''')) cands"
    by (rule filterUrls_compares)
next
  show "filterUrls parse xs (replace u ''www.'' '''') =
     filter (\<lambda>link. \<exists>h. parse link = Some h \<and>
                \<not> list_ex (\<lambda>s. sublist s (replace h ''www.'' '''')) socials \<and>
                sublist (replace (replace u ''www.'' '''') ''www.'' '''')
                        (replace h ''www.'' '''')) xs"
    by (rule filterUrls_compares)
next
  assume "parse (JStr (arg_url args)) = Some u \<and>
    getLinks be (arg_url args) True tr = (Inr links, tr1) \<and>
    \<not> truthy (isX402 links) \<and> dotMember links ''links'' = Inr (JArr xs)"
  then show "callTool be parse ''scrape_website'' args tr =
      (if filterUrls parse xs (replace u ''www.'' '''') = [] then
         (Inr (Stringify (JObj [(''links'', JArr xs), (''filtered'', JArr []),
                                (''message'', JStr ''No internal links found'')])), tr1)
       else
         (case extractText be (filterUrls parse xs (replace u ''www.'' ''''))
                 (replace u ''www.'' '''') True tr1 of
            (Inl e, tr2) \<Rightarrow> (Inl e, tr2)
          | (Inr extracted, tr2) \<Rightarrow>
              (Inr (Stringify (JObj [(''links'', links),
                     (''filtered'', JArr (filterUrls parse xs (replace u ''www.'' ''''))),
                     (''extracted'', extracted)])), tr2)))"
    by (simp add: callTool_def Let_def)
next
  assume "prefix ''www.'' h"
  then show "replace h ''www.'' '''' = drop 4 h"
    by (simp add: replace_prefix eval_nat_numeral)
next
  assume "\<not> sublist ''www.'' h"
  then show "replace h ''www.'' '''' = h"
    by (rule replace_absent)
next
  assume a: "h = p @ ''www.'' @ s \<and> \<not> sublist ''www.'' (p @ ''www'')"
  then have "\<not> sublist ''www.'' (p @ butlast ''www.'')"
    by simp
  then have "replace (p @ ''www.'' @ s) ''www.'' '''' = p @ '''' @ s"
    by (rule replace_first_occurrence) simp
  with a show "replace h ''www.'' '''' = p @ s"
    by simp
qed

theorem compared_host_first_www_removed_witness:
  "replace ''www.example.com'' ''www.'' '''' = ''example.com'' \<and>
   replace ''example.com'' ''www.'' '''' = ''example.com'' \<and>
   replace ''sub.www.example.com'' ''www.'' '''' = ''sub.example.com'' \<and>
   filterUrls (\<lambda>l. if l = ''https://sub.www.example.com/a'' then Some ''sub.www.example.com'' else None)
     [''https://sub.www.example.com/a''] ''www.sub.example.com''
   = [''https://sub.www.example.com/a''] \<and>
   callTool
     (\<lambda>tr req. case req of
        GetLinks v \<Rightarrow> Reply True (Some (JObj [(''links'', JArr [JStr ''https://example.com/a''])]))
      | PostDoPayment r \<Rightarrow> NetworkError
      | PostExtractText us d \<Rightarrow> Reply True (Some (JObj [(''results'', JArr [])])))
     (\<lambda>v. if v = JStr ''https://www.www.example.com'' then Some ''www.www.example.com''
           else if v = JStr ''https://example.com/a'' then Some ''example.com'' else None)
     ''scrape_website''
     \<lparr>arg_url = ''https://www.www.example.com'', arg_urls = [], arg_domain = ''''\<rparr> []
   = (Inr (Stringify (JObj [(''links'', JObj [(''links'', JArr [JStr ''https://example.com/a''])]),
                            (''filtered'', JArr [JStr ''https://example.com/a'']),
                            (''extracted'', JObj [(''results'', JArr [])])])),
      [GetLinks ''https://www.www.example.com'',
       PostExtractText [JStr ''https://example.com/a''] ''www.example.com''])"
proof -
  let ?ls = "JObj [(''links'', JArr [JStr ''https://example.com/a''])]"
  let ?be = "\<lambda>tr req. case req of
        GetLinks v \<Rightarrow> Reply True (Some ?ls)
      | PostDoPayment r \<Rightarrow> NetworkError
      | PostExtractText us d \<Rightarrow> Reply True (Some (JObj [(''results'', JArr [])]))"
  let ?parse = "\<lambda>v. if v = JStr ''https://www.www.example.com'' then Some ''www.www.example.com''
           else if v = JStr ''https://example.com/a'' then Some ''example.com'' else None"
  let ?args = "\<lparr>arg_url = ''https://www.www.example.com'', arg_urls = [], arg_domain = ''''\<rparr>"
  let ?p1 = "\<lambda>l. if l = ''https://sub.www.example.com/a'' then Some ''sub.www.example.com'' else None"
  have ls: "\<not> truthy (isX402 ?ls)"
    by (simp add: isX402_def optMember_def)
  have g: "getLinks ?be (arg_url ?args) True [] = (Inr ?ls, [GetLinks ''https://www.www.example.com''])"
    using getLinks_plain [of ?be "[]" "''https://www.www.example.com''" True ?ls True] ls
    by simp
  have f: "filterUrls ?parse [JStr ''https://example.com/a''] ''www.example.com''
             = [JStr ''https://example.com/a'']"
    by (simp add: filterUrls_def socials_def)
  have e: "extractText ?be [JStr ''https://example.com/a''] ''www.example.com'' True
             [GetLinks ''https://www.www.example.com'']
           = (Inr (JObj [(''results'', JArr [])]),
              [GetLinks ''https://www.www.example.com'',
               PostExtractText [JStr ''https://example.com/a''] ''www.example.com''])"
    by (subst extractText.simps) (simp add: fetch_def isX402_def optMember_def dotMember_def)
  have r: "replace ''www.www.example.com'' ''www.'' '''' = ''www.example.com''"
    by simp
  note t1 = compared_host_first_www_removed
    [where hostname = ?p1 and cands = "[''https://sub.www.example.com/a'']"
       and domain = "''www.sub.example.com''" and parse = ?parse and args = ?args
       and u = "''www.www.example.com''" and be = ?be and tr = "[]" and links = ?ls
       and ?tr1.0 = "[GetLinks ''https://www.www.example.com'']"
       and xs = "[JStr ''https://example.com/a'']"
       and h = "''www.example.com''" and p = "[]" and s = "''example.com''"]
  note t2 = compared_host_first_www_removed
    [where hostname = ?p1 and cands = "[''https://sub.www.example.com/a'']"
       and domain = "''www.sub.example.com''" and parse = ?parse and args = ?args
       and u = "''www.www.example.com''" and be = ?be and tr = "[]" and links = ?ls
       and ?tr1.0 = "[GetLinks ''https://www.www.example.com'']"
       and xs = "[JStr ''https://example.com/a'']"
       and h = "''example.com''" and p = "[]" and s = "[]"]
  note t3 = compared_host_first_www_removed
    [where hostname = ?p1 and cands = "[''https://sub.www.example.com/a'']"
       and domain = "''www.sub.example.com''" and parse = ?parse and args = ?args
       and u = "''www.www.example.com''" and be = ?be and tr = "[]" and links = ?ls
       and ?tr1.0 = "[GetLinks ''https://www.www.example.com'']"
       and xs = "[JStr ''https://example.com/a'']"
       and h = "''sub.www.example.com''" and p = "''sub.''" and s = "''example.com''"]
  show ?thesis
    using t1 t2 t3 g ls
    by (simp add: r f e dotMember_def socials_def sublist_Cons_right)
qed

end
